theory Spec2Isabelle
  imports Complex_Main
begin

section \<open>JavaScript strings and character classes\<close>

text \<open>
  A JavaScript string is a sequence of UTF-16 code units. The model covers the strings
  whose code units lie in U+0000..U+00FF: an Isabelle \<open>char\<close> is read as the code unit
  with the same number. This range is closed under every string operation of
  \<^verbatim>\<open>src/lib/api.ts\<close> (\<^verbatim>\<open>toLowerCase\<close>, \<^verbatim>\<open>trim\<close>, \<^verbatim>\<open>replace\<close>, \<^verbatim>\<open>split\<close>,
  \<^verbatim>\<open>join\<close>, concatenation).
\<close>

definition code :: "char \<Rightarrow> nat" where
  "code c = of_char c"

text \<open>\<^verbatim>\<open>\d\<close> of a regular expression: \<^verbatim>\<open>[0-9]\<close>.\<close>

definition is_digit :: "char \<Rightarrow> bool" where
  "is_digit c = (0x30 \<le> code c \<and> code c \<le> 0x39)"

text \<open>\<^verbatim>\<open>\w\<close>: \<^verbatim>\<open>[A-Za-z0-9_]\<close>.\<close>

definition is_word :: "char \<Rightarrow> bool" where
  "is_word c = ((0x41 \<le> code c \<and> code c \<le> 0x5A) \<or> (0x61 \<le> code c \<and> code c \<le> 0x7A)
     \<or> is_digit c \<or> c = CHR ''_'')"

text \<open>
  \<^verbatim>\<open>\s\<close>, which is also what \<^verbatim>\<open>trim\<close> strips: the white space and line terminator code
  points. Below U+0100 these are TAB, LF, VT, FF, CR, SPACE and NO-BREAK SPACE.
\<close>

definition is_space :: "char \<Rightarrow> bool" where
  "is_space c = ((0x09 \<le> code c \<and> code c \<le> 0x0D) \<or> code c = 0x20 \<or> code c = 0xA0)"

text \<open>
  \<^verbatim>\<open>String.prototype.toLowerCase\<close>: below U+0100 the upper-case letters are A..Z and
  U+00C0..U+00DE without the multiplication sign U+00D7, and each has its lower-case
  partner 32 positions later.
\<close>

definition is_upper :: "char \<Rightarrow> bool" where
  "is_upper c = ((0x41 \<le> code c \<and> code c \<le> 0x5A)
     \<or> (0xC0 \<le> code c \<and> code c \<le> 0xDE \<and> code c \<noteq> 0xD7))"

definition toLowerChar :: "char \<Rightarrow> char" where
  "toLowerChar c = (if is_upper c then char_of (code c + 32) else c)"

definition toLowerCase :: "string \<Rightarrow> string" where
  "toLowerCase s = map toLowerChar s"

text \<open>\<^verbatim>\<open>String.prototype.trim\<close>.\<close>

definition trim :: "string \<Rightarrow> string" where
  "trim s = dropWhile is_space (rev (dropWhile is_space (rev s)))"

text \<open>\<^verbatim>\<open>Array.prototype.join\<close> on an array of strings.\<close>

fun join :: "string \<Rightarrow> string list \<Rightarrow> string" where
  "join sep [] = []"
| "join sep [x] = x"
| "join sep (x # y # ys) = x @ sep @ join sep (y # ys)"

text \<open>
  \<^verbatim>\<open>String.prototype.split\<close> with a one-character string separator: the pieces between
  the occurrences of the separator; never an empty array.
\<close>

fun split_char :: "char \<Rightarrow> string \<Rightarrow> string list" where
  "split_char d [] = [[]]"
| "split_char d (c # cs) =
     (if c = d then [] # split_char d cs
      else (case split_char d cs of
              [] \<Rightarrow> [[c]]
            | p # ps \<Rightarrow> (c # p) # ps))"

section \<open>Regular expressions\<close>

text \<open>
  Every regular expression literal of the source is a sequence of character classes, each
  taken once, or under a greedy \<^verbatim>\<open>*\<close> or \<^verbatim>\<open>+\<close>. \<open>rmatch r s\<close> runs the backtracking
  matcher of ECMAScript on such a sequence at the start of \<open>s\<close>: a greedy quantifier first
  takes one more character and gives it back only when the rest of the pattern fails.
  The result is the length of the match.
\<close>

datatype item = One "char \<Rightarrow> bool" | Star "char \<Rightarrow> bool" | Plus "char \<Rightarrow> bool"

type_synonym regex = "item list"

fun rmatch :: "regex \<Rightarrow> string \<Rightarrow> nat option" where
  "rmatch [] s = Some 0"
| "rmatch (One p # r) [] = None"
| "rmatch (One p # r) (c # cs) = (if p c then map_option Suc (rmatch r cs) else None)"
| "rmatch (Star p # r) [] = rmatch r []"
| "rmatch (Star p # r) (c # cs) =
     (if p c then (case rmatch (Star p # r) cs of
                     Some n \<Rightarrow> Some (Suc n)
                   | None \<Rightarrow> rmatch r (c # cs))
      else rmatch r (c # cs))"
| "rmatch (Plus p # r) [] = None"
| "rmatch (Plus p # r) (c # cs) =
     (if p c then map_option Suc (rmatch (Star p # r) cs) else None)"

text \<open>
  \<^verbatim>\<open>String.prototype.replace\<close> with a global regular expression and a replacement string
  without \<^verbatim>\<open>$\<close>: the leftmost match from the current position is replaced and the scan
  goes on behind it; an empty match is replaced and the scan moves one character on.
\<close>

function replace_all :: "regex \<Rightarrow> string \<Rightarrow> string \<Rightarrow> string" where
  "replace_all r rep [] = (case rmatch r [] of None \<Rightarrow> [] | Some n \<Rightarrow> rep)"
| "replace_all r rep (c # cs) =
     (case rmatch r (c # cs) of
        None \<Rightarrow> c # replace_all r rep cs
      | Some 0 \<Rightarrow> rep @ c # replace_all r rep cs
      | Some (Suc n) \<Rightarrow> rep @ replace_all r rep (drop n cs))"
  by pat_completeness auto
termination
  by (relation "measure (\<lambda>(r, rep, s). length s)") auto

text \<open>
  \<^verbatim>\<open>String.prototype.split\<close> with a regular expression without capture groups and no
  limit. \<open>split_loop r piece s\<close> is the loop of the algorithm: \<open>piece\<close> is the text between
  the end of the last separator (\<open>p\<close>) and the current position (\<open>q\<close>), \<open>s\<close> the text from
  \<open>q\<close> on. A match that ends at \<open>p\<close> is skipped.
\<close>

function split_loop :: "regex \<Rightarrow> string \<Rightarrow> string \<Rightarrow> string list" where
  "split_loop r piece [] = [piece]"
| "split_loop r piece (c # cs) =
     (case rmatch r (c # cs) of
        None \<Rightarrow> split_loop r (piece @ [c]) cs
      | Some 0 \<Rightarrow> (if piece = [] then split_loop r (piece @ [c]) cs
                  else piece # split_loop r [] (c # cs))
      | Some (Suc n) \<Rightarrow> piece # split_loop r [] (drop n cs))"
  by pat_completeness auto
termination
  by (relation "measure (\<lambda>(r, piece, s). 2 * length s + (if piece = [] then 0 else 1))") auto

definition split_regex :: "regex \<Rightarrow> string \<Rightarrow> string list" where
  "split_regex r s =
     (if s = [] then (case rmatch r [] of None \<Rightarrow> [[]] | Some n \<Rightarrow> [])
      else split_loop r [] s)"

section \<open>Text normalizer\<close>

text \<open>\<^verbatim>\<open>/[^\w\s]/g\<close>\<close>

definition re_not_word_space :: regex where
  "re_not_word_space = [One (\<lambda>c. \<not> (is_word c \<or> is_space c))]"

text \<open>\<^verbatim>\<open>/\s+/\<close>\<close>

definition re_spaces :: regex where
  "re_spaces = [Plus is_space]"

definition commonWords :: "string list" where
  "commonWords = [''and'', ''the'', ''for'', ''in'', ''to'', ''of'', ''a'', ''with'', ''by'',
     ''on'', ''your'']"

text \<open>
  \<^verbatim>\<open>Array.from(new Set(words))\<close>: a Set keeps its elements in insertion order, and adding
  an element that is already there changes nothing.
\<close>

definition Set_add :: "'a list \<Rightarrow> 'a \<Rightarrow> 'a list" where
  "Set_add seen x = (if x \<in> set seen then seen else seen @ [x])"

definition Array_from_Set :: "'a list \<Rightarrow> 'a list" where
  "Array_from_Set xs = foldl Set_add [] xs"

definition extractKeywords :: "string \<Rightarrow> string" where
  "extractKeywords content =
     (let wordz = filter (\<lambda>word. length word > 3 \<and> word \<notin> set commonWords)
                    (split_regex re_spaces
                      (replace_all re_not_word_space [] (toLowerCase content)));
          uniqueWords = Array_from_Set wordz
      in join '', '' (take 5 uniqueWords))"

text \<open>\<^verbatim>\<open>/\d+\.\s+/g\<close>\<close>

definition re_numbered :: regex where
  "re_numbered = [Plus is_digit, One (\<lambda>c. c = CHR ''.''), Plus is_space]"

text \<open>
  A pattern character under the \<^verbatim>\<open>i\<close> flag (without the \<^verbatim>\<open>u\<close> flag): both sides are
  compared after \<^verbatim>\<open>toUpperCase\<close>, and a code unit from U+0080 on never matches an ASCII
  one. A lower-case ASCII letter of the pattern matches itself and its capital, any other
  pattern character of the source (the space) only itself.
\<close>

definition icase :: "char \<Rightarrow> char \<Rightarrow> bool" where
  "icase p c = (c = p \<or> (0x61 \<le> code p \<and> code p \<le> 0x7A \<and> code c + 32 = code p))"

text \<open>\<^verbatim>\<open>/here are \d+ tips for/gi\<close>\<close>

definition re_here_are :: regex where
  "re_here_are =
     map (\<lambda>p. One (icase p)) ''here are '' @ [Plus is_digit]
       @ map (\<lambda>p. One (icase p)) '' tips for''"

text \<open>\<^verbatim>\<open>/\s*\n\s*/g\<close>, \<^verbatim>\<open>/\s*\.\s*/g\<close> and \<^verbatim>\<open>/\s*,\s*/g\<close>\<close>

definition re_around :: "char \<Rightarrow> regex" where
  "re_around d = [Star is_space, One (\<lambda>c. c = d), Star is_space]"

definition cleanDescription :: "string \<Rightarrow> string" where
  "cleanDescription text =
     trim
      (replace_all re_spaces '' ''
        (replace_all (re_around CHR '','') '', ''
          (replace_all (re_around CHR ''.'') ''. ''
            (replace_all (re_around CHR 0x0A) '' ''
              (replace_all re_spaces '' ''
                (replace_all re_here_are ''Discover essential tips for''
                  (replace_all re_numbered [] text)))))))"

text \<open>\<^verbatim>\<open>/(?:\.|\?|\!)\s+/\<close>\<close>

definition re_sentence_end :: regex where
  "re_sentence_end = [One (\<lambda>c. c = CHR ''.'' \<or> c = CHR ''?'' \<or> c = CHR ''!''), Plus is_space]"

definition formatDescription :: "string \<Rightarrow> string" where
  "formatDescription description =
     (if description = [] then []
      else
        (let cleaned = cleanDescription description;
             parts = split_regex re_sentence_end cleaned;
             firstTwoParts = join ''. '' (filter (\<lambda>part. part \<noteq> []) (map trim (take 2 parts)))
         in if length firstTwoParts > 0 then firstTwoParts @ ''.'' else cleaned))"

section \<open>Errors, effects and the retry policy\<close>

text \<open>
  What a JavaScript computation can throw: an \<^verbatim>\<open>Error\<close> with its message, a
  \<^verbatim>\<open>TypeError\<close>, a \<^verbatim>\<open>SyntaxError\<close>, or whatever the remote client rejects with.
\<close>

datatype js_error = Error string | TypeError | SyntaxError | Thrown string

text \<open>
  The observable effects of a run, in order: an invocation of the retried operation, a
  \<^verbatim>\<open>setTimeout\<close> of so many milliseconds that is awaited, and a \<^verbatim>\<open>console.error\<close>.
\<close>

datatype event = Invoked | Slept int | Logged string js_error

text \<open>
  An asynchronous operation \<^verbatim>\<open>() => Promise<T>\<close> that is awaited: it changes the state of
  the world and either resolves to a value or rejects.
\<close>

type_synonym ('s, 'a) async = "'s \<Rightarrow> (js_error + 'a) \<times> 's"

text \<open>
  The \<^verbatim>\<open>for\<close> loop of \<^verbatim>\<open>retryWithBackoff\<close> from index \<open>i\<close> on, and the \<^verbatim>\<open>throw\<close> behind
  it. \<^verbatim>\<open>maxRetries\<close> and \<^verbatim>\<open>baseDelay\<close> are integers here.
\<close>

function retry_loop ::
  "('s, 'a) async \<Rightarrow> int \<Rightarrow> int \<Rightarrow> int \<Rightarrow> 's \<Rightarrow> event list \<Rightarrow> (js_error + 'a) \<times> 's \<times> event list"
where
  "retry_loop fn maxRetries baseDelay i s tr =
     (if i < maxRetries then
        (case fn s of
           (Inr v, s') \<Rightarrow> (Inr v, s', tr @ [Invoked])
         | (Inl error, s') \<Rightarrow>
             (if i = maxRetries - 1 then (Inl error, s', tr @ [Invoked])
              else
                (let delay = baseDelay * 2 ^ nat i
                 in retry_loop fn maxRetries baseDelay (i + 1) s' (tr @ [Invoked, Slept delay]))))
      else (Inl (Error ''Max retries reached''), s, tr))"
  by pat_completeness auto
termination
  by (relation "measure (\<lambda>(fn, maxRetries, baseDelay, i, s, tr). nat (maxRetries - i))") auto

definition retryWithBackoff ::
  "('s, 'a) async \<Rightarrow> int \<Rightarrow> int \<Rightarrow> 's \<Rightarrow> (js_error + 'a) \<times> 's \<times> event list"
where
  "retryWithBackoff fn maxRetries baseDelay s = retry_loop fn maxRetries baseDelay 0 s []"

section \<open>The remote inference client and the runtime\<close>

record textgen_parameters =
  max_new_tokens :: nat
  temperature :: real
  top_p :: "real option"
  repetition_penalty :: "real option"

record textgen_args =
  model :: string
  inputs :: string
  parameters :: textgen_parameters

record response =
  generated_text :: string

text \<open>The values \<^verbatim>\<open>JSON.parse\<close> returns.\<close>

datatype json =
  JNull | JBool bool | JNum real | JStr string | JArr "json list" | JObj "(string \<times> json) list"

text \<open>
  What the module takes from outside: the client's \<^verbatim>\<open>hf.textGeneration\<close>, the runtime's
  \<^verbatim>\<open>JSON.parse\<close> (an object comes with its own properties as an association list) and the
  clock read by \<^verbatim>\<open>Date.now()\<close>.
\<close>

record 's env =
  textGeneration :: "textgen_args \<Rightarrow> ('s, response) async"
  JSON_parse :: "string \<Rightarrow> js_error + json"
  Date_now :: "'s \<Rightarrow> int"

text \<open>
  Reading the property \<open>k\<close> of a parsed value, for the keys the source reads
  (\<^verbatim>\<open>title\<close>, \<^verbatim>\<open>description\<close>, \<^verbatim>\<open>keywords\<close>): \<^verbatim>\<open>null\<close> has no properties and the access
  throws; an object gives its own property or \<^verbatim>\<open>undefined\<close> (\<open>None\<close>); no other value has
  a property of these names.
\<close>

fun get_property :: "json \<Rightarrow> string \<Rightarrow> js_error + json option" where
  "get_property JNull k = Inl TypeError"
| "get_property (JObj kvs) k = Inr (map_of kvs k)"
| "get_property v k = Inr None"

text \<open>\<^verbatim>\<open>ToBoolean\<close>.\<close>

fun truthy :: "json option \<Rightarrow> bool" where
  "truthy None = False"
| "truthy (Some JNull) = False"
| "truthy (Some (JBool b)) = b"
| "truthy (Some (JNum x)) = (x \<noteq> 0)"
| "truthy (Some (JStr s)) = (s \<noteq> [])"
| "truthy (Some (JArr xs)) = True"
| "truthy (Some (JObj kvs)) = True"

text \<open>\<^verbatim>\<open>v.trim()\<close>: only a string has a method of this name.\<close>

fun call_trim :: "json option \<Rightarrow> js_error + string" where
  "call_trim (Some (JStr s)) = Inr (trim s)"
| "call_trim v = Inl TypeError"

text \<open>
  \<^verbatim>\<open>formatDescription(v)\<close> on a value of any type: a falsy value gives the empty string,
  and \<^verbatim>\<open>text.replace\<close> in \<^verbatim>\<open>cleanDescription\<close> exists only on a string.
\<close>

definition call_formatDescription :: "json option \<Rightarrow> js_error + string" where
  "call_formatDescription v =
     (if \<not> truthy v then Inr []
      else (case v of Some (JStr d) \<Rightarrow> Inr (formatDescription d) | _ \<Rightarrow> Inl TypeError))"

text \<open>Sequencing of computations that may throw.\<close>

definition and_then :: "js_error + 'a \<Rightarrow> ('a \<Rightarrow> js_error + 'b) \<Rightarrow> js_error + 'b" where
  "and_then x f = (case x of Inl e \<Rightarrow> Inl e | Inr v \<Rightarrow> f v)"

section \<open>Metadata generator\<close>

record PageMetadata =
  ident :: int
  url :: string
  title :: string
  description :: string
  "keywords" :: string

text \<open>The template literal of \<^verbatim>\<open>generateLLMMetadata\<close>; \<open>dq\<close> is the double quote.\<close>

definition dq :: string where
  "dq = [CHR 0x22]"

definition metadata_prompt :: "string \<Rightarrow> string \<Rightarrow> string" where
  "metadata_prompt url' content =
     ''Generate SEO metadata for the following webpage. Format your response in JSON.\<newline>''
   @ ''\<newline>''
   @ ''  URL: '' @ url' @ ''\<newline>''
   @ ''  Content: '' @ content @ ''\<newline>''
   @ ''\<newline>''
   @ ''  Requirements:\<newline>''
   @ ''  1. Title: Create a clear, complete title that captures the main topic. Keep it concise.\<newline>''
   @ ''  2. Description: Write a natural, flowing description (150-160 characters) that summarizes the value proposition. DO NOT use numbered points or lists. Write in complete sentences.\<newline>''
   @ ''  3. Keywords: Extract 5 relevant keywords, separated by commas.\<newline>''
   @ ''\<newline>''
   @ ''  Example good descriptions:\<newline>''
   @ ''  - '' @ dq @ ''Discover essential healthy eating strategies for overall well-being. Learn about balanced nutrition and smart food choices for a healthier lifestyle.'' @ dq @ ''\<newline>''
   @ ''  - '' @ dq @ ''Explore comprehensive tips for maintaining a healthy diet, including nutrition guidance and practical meal planning strategies.'' @ dq @ ''\<newline>''
   @ ''\<newline>''
   @ ''  Bad description example (DO NOT USE):\<newline>''
   @ ''  - '' @ dq @ ''Here are 10 tips for healthy eating: 1. Eat more vegetables 2. Choose whole grains 3. Limit sugar'' @ dq @ ''\<newline>''
   @ ''\<newline>''
   @ ''  Response format:\<newline>''
   @ ''  {\<newline>''
   @ ''    '' @ dq @ ''title'' @ dq @ '': '' @ dq @ ''Your complete, concise title here'' @ dq @ '',\<newline>''
   @ ''    '' @ dq @ ''description'' @ dq @ '': '' @ dq @ ''Your natural, flowing description here'' @ dq @ '',\<newline>''
   @ ''    '' @ dq @ ''keywords'' @ dq @ '': '' @ dq @ ''keyword1, keyword2, keyword3, keyword4, keyword5'' @ dq @ ''\<newline>''
   @ ''  }''"

definition metadata_request :: "string \<Rightarrow> string \<Rightarrow> textgen_args" where
  "metadata_request url' content =
     \<lparr>model = ''facebook/bart-large-cnn'',
      inputs = metadata_prompt url' content,
      parameters = \<lparr>max_new_tokens = 300, temperature = 0.7, top_p = Some 0.95,
                    repetition_penalty = Some 1.2\<rparr>\<rparr>"

text \<open>
  The inner \<^verbatim>\<open>try\<close> block: parse, validate, build the result. Everything that throws
  here is caught by the inner \<^verbatim>\<open>catch\<close>.
\<close>

definition parse_and_validate :: "'s env \<Rightarrow> string \<Rightarrow> response \<Rightarrow> 's \<Rightarrow> js_error + PageMetadata" where
  "parse_and_validate env url' response s =
     and_then (JSON_parse env (generated_text response)) (\<lambda>metadata.
     and_then (get_property metadata ''title'') (\<lambda>t.
     if \<not> truthy t then Inl (Error ''Incomplete metadata'')
     else
     and_then (get_property metadata ''description'') (\<lambda>d.
     if \<not> truthy d then Inl (Error ''Incomplete metadata'')
     else
     and_then (get_property metadata ''keywords'') (\<lambda>k.
     if \<not> truthy k then Inl (Error ''Incomplete metadata'')
     else
     and_then (call_trim t) (\<lambda>title'.
     and_then (call_formatDescription d) (\<lambda>description'.
     and_then (call_trim k) (\<lambda>keywords'.
       Inr \<lparr>ident = Date_now env s, url = url', title = title',
            description = description', keywords = keywords'\<rparr>)))))))"

text \<open>
  The body of the inner \<^verbatim>\<open>catch\<close>, behind its \<^verbatim>\<open>console.error\<close>. Element 0 of an empty
  array would be \<^verbatim>\<open>undefined\<close>, and \<^verbatim>\<open>undefined.toLowerCase()\<close> throws.
\<close>

definition inner_catch :: "'s env \<Rightarrow> string \<Rightarrow> string \<Rightarrow> 's \<Rightarrow> js_error + PageMetadata" where
  "inner_catch env url' content s =
     (case split_char CHR ''.'' content of
        [] \<Rightarrow> Inl TypeError
      | mainTopic # rest \<Rightarrow>
          (let fallbackDescription =
                 ''Discover comprehensive insights about '' @ toLowerCase mainTopic
                 @ ''. Get expert guidance and practical strategies for better results.''
           in Inr \<lparr>ident = Date_now env s, url = url', title = trim mainTopic,
                   description = formatDescription fallbackDescription,
                   keywords = extractKeywords content\<rparr>))"

text \<open>The body of the outer \<^verbatim>\<open>catch\<close>, behind its \<^verbatim>\<open>console.error\<close>.\<close>

definition outer_catch :: "'s env \<Rightarrow> string \<Rightarrow> string \<Rightarrow> 's \<Rightarrow> js_error + PageMetadata" where
  "outer_catch env url' content s =
     (case split_char CHR ''.'' content of
        [] \<Rightarrow> Inl TypeError
      | mainTopic # rest \<Rightarrow>
          (let fallbackDescription =
                 ''Explore essential information about '' @ toLowerCase mainTopic
                 @ ''. Find practical tips and expert recommendations for optimal outcomes.''
           in Inr \<lparr>ident = Date_now env s, url = url', title = trim mainTopic,
                   description = formatDescription fallbackDescription,
                   keywords = extractKeywords content\<rparr>))"

text \<open>
  \<^verbatim>\<open>generateLLMMetadata\<close>: the awaited result (\<open>Inl\<close> would be a rejection that reaches the
  caller), the state of the world and the effects. The inner \<^verbatim>\<open>try\<close>/\<^verbatim>\<open>catch\<close> lies inside
  the outer \<^verbatim>\<open>try\<close>, so what the inner \<^verbatim>\<open>catch\<close> throws is caught by the outer one; what the
  outer \<^verbatim>\<open>catch\<close> throws reaches the caller.
\<close>

definition generateLLMMetadata ::
  "'s env \<Rightarrow> string \<Rightarrow> string \<Rightarrow> 's \<Rightarrow> (js_error + PageMetadata) \<times> 's \<times> event list"
where
  "generateLLMMetadata env url' content s =
     (case retryWithBackoff (textGeneration env (metadata_request url' content)) 3 1000 s of
        (Inr response, s1, tr) \<Rightarrow>
          (case parse_and_validate env url' response s1 of
             Inr page \<Rightarrow> (Inr page, s1, tr)
           | Inl error \<Rightarrow>
               (let tr1 = tr @ [Logged ''Failed to parse or validate LLM response:'' error]
                in case inner_catch env url' content s1 of
                     Inr page \<Rightarrow> (Inr page, s1, tr1)
                   | Inl error2 \<Rightarrow>
                       (outer_catch env url' content s1, s1,
                        tr1 @ [Logged ''Error generating metadata with LLM:'' error2])))
      | (Inl error, s1, tr) \<Rightarrow>
          (outer_catch env url' content s1, s1,
           tr @ [Logged ''Error generating metadata with LLM:'' error]))"

section \<open>Content analyzer\<close>

definition analysis_prompt :: "string \<Rightarrow> string" where
  "analysis_prompt content =
     ''Analyze the following content for SEO optimization:\<newline>''
   @ content @ ''\<newline>''
   @ ''\<newline>''
   @ ''Provide 3-5 suggestions to improve the content for better SEO. Format each suggestion as a separate line.''"

definition analysis_request :: "string \<Rightarrow> textgen_args" where
  "analysis_request content =
     \<lparr>model = ''facebook/bart-large-cnn'',
      inputs = analysis_prompt content,
      parameters = \<lparr>max_new_tokens = 250, temperature = 0.7, top_p = None,
                    repetition_penalty = None\<rparr>\<rparr>"

definition fallback_suggestions :: "string list" where
  "fallback_suggestions =
     [''Ensure your content includes relevant keywords.'',
      ''Write a compelling meta description.'',
      ''Use header tags (H1, H2, etc.) to structure your content.'',
      ''Include internal and external links where appropriate.'',
      ''Optimize your images with alt text and descriptive file names.'']"

definition analyzeContent ::
  "'s env \<Rightarrow> string \<Rightarrow> 's \<Rightarrow> (js_error + string list) \<times> 's \<times> event list"
where
  "analyzeContent env content s =
     (case retryWithBackoff (textGeneration env (analysis_request content)) 3 1000 s of
        (Inr response, s1, tr) \<Rightarrow>
          (Inr (filter (\<lambda>line. line \<noteq> []) (split_char CHR 0x0A (generated_text response))),
           s1, tr)
      | (Inl error, s1, tr) \<Rightarrow>
          (Inr fallback_suggestions, s1,
           tr @ [Logged ''Error analyzing content with LLM:'' error]))"

section \<open>Example environments\<close>

text \<open>
  A client that rejects every call (the state counts the calls, and each rejection names
  its call), a client that resolves to a fixed text, and a client that rejects its first
  \<open>k\<close> calls and resolves to a fixed text from then on. The parser of the examples knows
  one document and rejects every other text.
\<close>

definition sample_json_text :: string where
  "sample_json_text =
     ''{'' @ dq @ ''title'' @ dq @ '': '' @ dq @ '' Eating well '' @ dq @ '', ''
     @ dq @ ''description'' @ dq @ '': '' @ dq @ ''Is it 5? Yes.'' @ dq @ '', ''
     @ dq @ ''keywords'' @ dq @ '': '' @ dq @ ''food, health'' @ dq @ ''}''"

definition sample_parse :: "string \<Rightarrow> js_error + json" where
  "sample_parse text =
     (if text = sample_json_text
      then Inr (JObj [(''title'', JStr '' Eating well ''), (''description'', JStr ''Is it 5? Yes.''),
                      (''keywords'', JStr ''food, health'')])
      else Inl SyntaxError)"

definition rejecting :: "textgen_args \<Rightarrow> (nat, response) async" where
  "rejecting args n = (Inl (Thrown (''attempt '' @ replicate (Suc n) CHR ''I'')), Suc n)"

definition answering :: "string \<Rightarrow> textgen_args \<Rightarrow> (nat, response) async" where
  "answering text args n = (Inr \<lparr>generated_text = text\<rparr>, Suc n)"

definition recovering_after :: "nat \<Rightarrow> string \<Rightarrow> textgen_args \<Rightarrow> (nat, response) async" where
  "recovering_after k text args n =
     (if n < k then Inl (Thrown ''unavailable'') else Inr \<lparr>generated_text = text\<rparr>, Suc n)"

definition offline :: "nat env" where
  "offline = \<lparr>textGeneration = rejecting, JSON_parse = sample_parse, Date_now = (\<lambda>n. 1700000000000 + int n)\<rparr>"

definition recovering :: "nat \<Rightarrow> string \<Rightarrow> nat env" where
  "recovering k text = \<lparr>textGeneration = recovering_after k text, JSON_parse = sample_parse,
                        Date_now = (\<lambda>n. 1700000000000 + int n)\<rparr>"

definition online :: "string \<Rightarrow> nat env" where
  "online text = \<lparr>textGeneration = answering text, JSON_parse = sample_parse,
                  Date_now = (\<lambda>n. 1700000000000 + int n)\<rparr>"

section \<open>Notions of the specification\<close>

text \<open>
  A parsed value lacks a truthy property \<open>k\<close>: reading it throws, or gives a falsy value.
\<close>

definition lacks_truthy :: "json \<Rightarrow> string \<Rightarrow> bool" where
  "lacks_truthy metadata k =
     (case get_property metadata k of Inl e \<Rightarrow> True | Inr v \<Rightarrow> \<not> truthy v)"

text \<open>
  The keyword extraction in the words of the specification: lower-case the content, keep
  the word and space characters, take the words (the maximal runs of characters that are
  not white space), discard the stop words and the words of length at most 3, keep the
  first occurrence of each word, and join the first five by a comma and a space.
\<close>

function words_of :: "string \<Rightarrow> string list" where
  "words_of [] = []"
| "words_of (c # cs) =
     (if is_space c then words_of cs
      else (c # takeWhile (\<lambda>x. \<not> is_space x) cs) # words_of (dropWhile (\<lambda>x. \<not> is_space x) cs))"
  by pat_completeness auto
termination
  by (relation "measure length") (auto simp: length_dropWhile_le less_Suc_eq_le)

function first_seen :: "'a list \<Rightarrow> 'a list" where
  "first_seen [] = []"
| "first_seen (x # xs) = x # first_seen (removeAll x xs)"
  by pat_completeness auto
termination
  by (relation "measure length") (auto simp: length_removeAll_less_eq less_Suc_eq_le)

definition extractKeywords_spec :: "string \<Rightarrow> string" where
  "extractKeywords_spec content =
     join '', ''
       (take 5
         (first_seen
           (filter (\<lambda>word. \<not> length word \<le> 3)
             (filter (\<lambda>word. word \<notin> set commonWords)
               (words_of
                 (filter (\<lambda>c. is_word c \<or> is_space c) (toLowerCase content)))))))"







section \<open>The retry policy\<close>

declare retry_loop.simps [simp del]

lemma retry_loop_exhausted:
  "maxRetries \<le> i \<Longrightarrow>
   retry_loop fn maxRetries baseDelay i s tr = (Inl (Error ''Max retries reached''), s, tr)"
  by (subst retry_loop.simps) simp

lemma retry_loop_resolves:
  "i < maxRetries \<Longrightarrow> fn s = (Inr v, s') \<Longrightarrow>
   retry_loop fn maxRetries baseDelay i s tr = (Inr v, s', tr @ [Invoked])"
  by (subst retry_loop.simps) simp

lemma retry_loop_last_rejects:
  "i = maxRetries - 1 \<Longrightarrow> fn s = (Inl e, s') \<Longrightarrow>
   retry_loop fn maxRetries baseDelay i s tr = (Inl e, s', tr @ [Invoked])"
  by (subst retry_loop.simps) simp

lemma retry_loop_rejects_again:
  "i < maxRetries - 1 \<Longrightarrow> fn s = (Inl e, s') \<Longrightarrow>
   retry_loop fn maxRetries baseDelay i s tr =
     retry_loop fn maxRetries baseDelay (i + 1) s' (tr @ [Invoked, Slept (baseDelay * 2 ^ nat i)])"
  by (subst retry_loop.simps) simp

lemma three_rejections:
  assumes "fn s0 = (Inl e1, s1)" and "fn s1 = (Inl e2, s2)" and "fn s2 = (Inl e3, s3)"
  shows "retryWithBackoff fn 3 1000 s0 =
           (Inl e3, s3, [Invoked, Slept 1000, Invoked, Slept 2000, Invoked])"
proof -
  have "retryWithBackoff fn 3 1000 s0 = retry_loop fn 3 1000 1 s1 [Invoked, Slept 1000]"
    unfolding retryWithBackoff_def
    using retry_loop_rejects_again [where fn = fn and i = 0 and maxRetries = 3 and tr = "[]", OF _ assms(1)]
    by simp
  also have "\<dots> = retry_loop fn 3 1000 2 s2 [Invoked, Slept 1000, Invoked, Slept 2000]"
    using retry_loop_rejects_again [where fn = fn and i = 1 and maxRetries = 3, OF _ assms(2)]
    by simp
  also have "\<dots> = (Inl e3, s3, [Invoked, Slept 1000, Invoked, Slept 2000, Invoked])"
    using retry_loop_last_rejects [where fn = fn and i = 2 and maxRetries = 3, OF _ assms(3)]
    by simp
  finally show ?thesis .
qed

lemma always_rejecting:
  assumes "\<forall>s. isl (fst (fn s))"
  obtains e s' where "fn s = (Inl e, s')"
proof -
  from assms have "isl (fst (fn s))" by blast
  then show thesis
    using that by (cases "fn s") (auto simp: isl_def)
qed

text \<open>
  C3: with \<^verbatim>\<open>maxRetries = 3\<close> and \<^verbatim>\<open>baseDelay = 1000\<close>, an operation that rejects on every
  invocation is invoked exactly three times, with a sleep of 1000 ms after the first
  rejection and of 2000 ms after the second, and the result is the rejection of the third
  invocation itself.
\<close>

theorem retryWithBackoff_always_failing:
  assumes "\<forall>s. isl (fst (fn s))"
  shows "\<exists>e1 s1 e2 s2 e3 s3.
           fn s0 = (Inl e1, s1) \<and> fn s1 = (Inl e2, s2) \<and> fn s2 = (Inl e3, s3) \<and>
           retryWithBackoff fn 3 1000 s0 =
             (Inl e3, s3, [Invoked, Slept 1000, Invoked, Slept 2000, Invoked])"
proof -
  obtain e1 s1 where 1: "fn s0 = (Inl e1, s1)" using assms by (rule always_rejecting)
  obtain e2 s2 where 2: "fn s1 = (Inl e2, s2)" using assms by (rule always_rejecting)
  obtain e3 s3 where 3: "fn s2 = (Inl e3, s3)" using assms by (rule always_rejecting)
  from three_rejections [OF 1 2 3] 1 2 3 show ?thesis by blast
qed

theorem retryWithBackoff_always_failing_witness:
  "(\<forall>s. isl (fst (rejecting (analysis_request ''any'') s))) \<and>
   retryWithBackoff (rejecting (analysis_request ''any'')) 3 1000 0 =
     (Inl (Thrown ''attempt III''), 3, [Invoked, Slept 1000, Invoked, Slept 2000, Invoked])"
proof -
  let ?fn = "rejecting (analysis_request ''any'')"
  have h: "\<forall>s. isl (fst (?fn s))"
    by (simp add: rejecting_def)
  from retryWithBackoff_always_failing [OF h, of 0]
  obtain e1 s1 e2 s2 e3 s3 where
    1: "?fn 0 = (Inl e1, s1)" and 2: "?fn s1 = (Inl e2, s2)" and 3: "?fn s2 = (Inl e3, s3)" and
    r: "retryWithBackoff ?fn 3 1000 0 =
          (Inl e3, s3, [Invoked, Slept 1000, Invoked, Slept 2000, Invoked])"
    by blast
  from 1 have "s1 = 1" by (simp add: rejecting_def)
  with 2 have "s2 = 2" by (simp add: rejecting_def)
  with 3 have "e3 = Thrown ''attempt III'' \<and> s3 = 3"
    by (auto simp: rejecting_def numeral_3_eq_3)
  with r h show ?thesis by simp
qed

text \<open>
  C9: with \<^verbatim>\<open>maxRetries = 0\<close> the loop body never runs: the operation is not invoked, nothing
  is slept, the world is unchanged, and the \<^verbatim>\<open>Error\<close> with the message
  \<^verbatim>\<open>Max retries reached\<close> behind the loop is thrown.
\<close>

theorem retryWithBackoff_zero_retries:
  "retryWithBackoff fn 0 baseDelay s = (Inl (Error ''Max retries reached''), s, [])"
  unfolding retryWithBackoff_def by (rule retry_loop_exhausted) simp

section \<open>Splitting at a character\<close>

lemma split_char_not_Nil: "split_char d s \<noteq> []"
  by (induction s) (auto split: list.splits)

lemma join_Cons_piece: "join sep ((c # p) # ps) = c # join sep (p # ps)"
  by (cases ps) auto

lemma join_split_char: "join [d] (split_char d s) = s"
proof (induction s)
  case Nil
  show ?case by simp
next
  case (Cons c cs)
  show ?case
  proof (cases "c = d")
    case True
    with Cons split_char_not_Nil [of d cs] show ?thesis
      by (cases "split_char d cs") auto
  next
    case False
    with Cons split_char_not_Nil [of d cs] show ?thesis
      by (cases "split_char d cs") (auto simp: join_Cons_piece)
  qed
qed

lemma split_char_pieces: "list_all (\<lambda>piece. d \<notin> set piece) (split_char d s)"
  by (induction s) (auto split: list.splits)

lemma split_char_only_separators:
  "list_all (\<lambda>c. c = d) s \<Longrightarrow> filter (\<lambda>piece. piece \<noteq> []) (split_char d s) = []"
  by (induction s) auto

section \<open>The content analyzer\<close>

lemma analyzeContent_resolved:
  assumes "retryWithBackoff (textGeneration env (analysis_request content)) 3 1000 s
             = (Inr response, s1, tr)"
  shows "analyzeContent env content s =
           (Inr (filter (\<lambda>line. line \<noteq> []) (split_char CHR 0x0A (generated_text response))),
            s1, tr)"
  using assms by (simp add: analyzeContent_def)

lemma analyzeContent_rejected:
  assumes "retryWithBackoff (textGeneration env (analysis_request content)) 3 1000 s
             = (Inl e, s1, tr)"
  shows "analyzeContent env content s =
           (Inr fallback_suggestions, s1, tr @ [Logged ''Error analyzing content with LLM:'' e])"
  using assms by (simp add: analyzeContent_def)

lemma analyzeContent_returns: "\<exists>suggestions. fst (analyzeContent env content s) = Inr suggestions"
proof -
  obtain r s1 tr where
    r: "retryWithBackoff (textGeneration env (analysis_request content)) 3 1000 s = (r, s1, tr)"
    by (rule prod_cases3)
  show ?thesis
  proof (cases r)
    case (Inl e)
    with r show ?thesis by (simp add: analyzeContent_rejected)
  next
    case (Inr response)
    with r show ?thesis by (simp add: analyzeContent_resolved)
  qed
qed

text \<open>
  C7: \<^verbatim>\<open>analyzeContent\<close> always resolves to a list. When the retried remote call rejects,
  which it does when each of the three attempts rejects, the list is the fixed one of five
  suggestions. When the retried call resolves, the list is made of the lines of the
  generated text (the newline-free pieces that, joined by newlines, give the text back), in
  their order, without the empty ones.
\<close>

theorem analyzeContent_never_fails:
  "(\<exists>suggestions. fst (analyzeContent env content s) = Inr suggestions) \<and>
   (\<forall>e s1 tr.
      retryWithBackoff (textGeneration env (analysis_request content)) 3 1000 s
        = (Inl e, s1, tr) \<longrightarrow>
      fst (analyzeContent env content s)
        = Inr [''Ensure your content includes relevant keywords.'',
               ''Write a compelling meta description.'',
               ''Use header tags (H1, H2, etc.) to structure your content.'',
               ''Include internal and external links where appropriate.'',
               ''Optimize your images with alt text and descriptive file names.'']) \<and>
   (\<forall>e1 s1 e2 s2 e3 s3.
      textGeneration env (analysis_request content) s = (Inl e1, s1) \<and>
      textGeneration env (analysis_request content) s1 = (Inl e2, s2) \<and>
      textGeneration env (analysis_request content) s2 = (Inl e3, s3) \<longrightarrow>
      fst (analyzeContent env content s)
        = Inr [''Ensure your content includes relevant keywords.'',
               ''Write a compelling meta description.'',
               ''Use header tags (H1, H2, etc.) to structure your content.'',
               ''Include internal and external links where appropriate.'',
               ''Optimize your images with alt text and descriptive file names.'']) \<and>
   (\<forall>response s1 tr.
      retryWithBackoff (textGeneration env (analysis_request content)) 3 1000 s
        = (Inr response, s1, tr) \<longrightarrow>
      (\<exists>lines. join [CHR 0x0A] lines = generated_text response \<and>
         list_all (\<lambda>line. CHR 0x0A \<notin> set line) lines \<and>
         fst (analyzeContent env content s) = Inr (filter (\<lambda>line. line \<noteq> []) lines)))"
proof (intro conjI impI allI)
  show "\<exists>suggestions. fst (analyzeContent env content s) = Inr suggestions"
    by (rule analyzeContent_returns)
next
  fix e s1 tr
  assume "retryWithBackoff (textGeneration env (analysis_request content)) 3 1000 s
            = (Inl e, s1, tr)"
  then show "fst (analyzeContent env content s)
        = Inr [''Ensure your content includes relevant keywords.'',
               ''Write a compelling meta description.'',
               ''Use header tags (H1, H2, etc.) to structure your content.'',
               ''Include internal and external links where appropriate.'',
               ''Optimize your images with alt text and descriptive file names.'']"
    by (simp add: analyzeContent_rejected fallback_suggestions_def)
next
  fix e1 s1 e2 s2 e3 s3
  assume "textGeneration env (analysis_request content) s = (Inl e1, s1) \<and>
      textGeneration env (analysis_request content) s1 = (Inl e2, s2) \<and>
      textGeneration env (analysis_request content) s2 = (Inl e3, s3)"
  then have "retryWithBackoff (textGeneration env (analysis_request content)) 3 1000 s
               = (Inl e3, s3, [Invoked, Slept 1000, Invoked, Slept 2000, Invoked])"
    by (intro three_rejections) auto
  then show "fst (analyzeContent env content s)
        = Inr [''Ensure your content includes relevant keywords.'',
               ''Write a compelling meta description.'',
               ''Use header tags (H1, H2, etc.) to structure your content.'',
               ''Include internal and external links where appropriate.'',
               ''Optimize your images with alt text and descriptive file names.'']"
    by (simp add: analyzeContent_rejected fallback_suggestions_def)
next
  fix response s1 tr
  assume "retryWithBackoff (textGeneration env (analysis_request content)) 3 1000 s
            = (Inr response, s1, tr)"
  then have "fst (analyzeContent env content s) =
      Inr (filter (\<lambda>line. line \<noteq> []) (split_char CHR 0x0A (generated_text response)))"
    by (simp add: analyzeContent_resolved)
  with join_split_char [of "CHR 0x0A" "generated_text response"]
    split_char_pieces [of "CHR 0x0A" "generated_text response"]
  show "\<exists>lines. join [CHR 0x0A] lines = generated_text response \<and>
         list_all (\<lambda>line. CHR 0x0A \<notin> set line) lines \<and>
         fst (analyzeContent env content s) = Inr (filter (\<lambda>line. line \<noteq> []) lines)"
    by blast
qed

lemma online_first_attempt:
  "retryWithBackoff (textGeneration (online text) a) 3 1000 0
     = (Inr \<lparr>generated_text = text\<rparr>, 1, [Invoked])"
  unfolding retryWithBackoff_def
  by (subst retry_loop_resolves [where v = "\<lparr>generated_text = text\<rparr>" and s' = 1])
     (simp_all add: online_def answering_def)

lemma recovering_attempts:
  "textGeneration (recovering 3 text) a 0 = (Inl (Thrown ''unavailable''), 1)"
  "textGeneration (recovering 3 text) a 1 = (Inl (Thrown ''unavailable''), 2)"
  "textGeneration (recovering 3 text) a 2 = (Inl (Thrown ''unavailable''), 3)"
  "textGeneration (recovering 3 text) a 3 = (Inr \<lparr>generated_text = text\<rparr>, 4)"
  by (simp_all add: recovering_def recovering_after_def)

theorem analyzeContent_never_fails_witness:
  "textGeneration (recovering 3 ''Use links.'') (analysis_request ''any'') 3
     = (Inr \<lparr>generated_text = ''Use links.''\<rparr>, 4) \<and>
   fst (analyzeContent (recovering 3 ''Use links.'') ''any'' 0)
     = Inr [''Ensure your content includes relevant keywords.'',
            ''Write a compelling meta description.'',
            ''Use header tags (H1, H2, etc.) to structure your content.'',
            ''Include internal and external links where appropriate.'',
            ''Optimize your images with alt text and descriptive file names.''] \<and>
   fst (analyzeContent (online ''Add headings.\<newline>\<newline>Use links.\<newline>'') ''any'' 0)
     = Inr [''Add headings.'', ''Use links.'']"
proof -
  let ?text = "''Add headings.\<newline>\<newline>Use links.\<newline>''"
  have "fst (analyzeContent (recovering 3 ''Use links.'') ''any'' 0)
     = Inr [''Ensure your content includes relevant keywords.'',
            ''Write a compelling meta description.'',
            ''Use header tags (H1, H2, etc.) to structure your content.'',
            ''Include internal and external links where appropriate.'',
            ''Optimize your images with alt text and descriptive file names.'']"
    using analyzeContent_never_fails [of "recovering 3 ''Use links.''" "''any''" 0]
      recovering_attempts(1-3) [of "''Use links.''" "analysis_request ''any''"]
    by blast
  moreover
  from analyzeContent_never_fails [of "online ?text" "''any''" 0]
    online_first_attempt [of ?text "analysis_request ''any''"]
  obtain lines where "join [CHR 0x0A] lines = generated_text \<lparr>generated_text = ?text\<rparr>"
    and "list_all (\<lambda>line. CHR 0x0A \<notin> set line) lines"
    and r: "fst (analyzeContent (online ?text) ''any'' 0) = Inr (filter (\<lambda>line. line \<noteq> []) lines)"
    by blast
  have "fst (analyzeContent (online ?text) ''any'' 0) = Inr [''Add headings.'', ''Use links.'']"
    using r by (simp add: analyzeContent_resolved [OF online_first_attempt])
  ultimately show ?thesis
    using recovering_attempts(4) [of "''Use links.''" "analysis_request ''any''"] by simp
qed

text \<open>
  C10: when the retried call resolves to a text that is empty or made of newlines only,
  \<^verbatim>\<open>analyzeContent\<close> resolves to the empty list, which is not the fallback list: a
  successful result is not checked for emptiness.
\<close>

theorem analyzeContent_empty_on_success:
  assumes "retryWithBackoff (textGeneration env (analysis_request content)) 3 1000 s
             = (Inr response, s1, tr)"
    and "list_all (\<lambda>c. c = CHR 0x0A) (generated_text response)"
  shows "analyzeContent env content s = (Inr [], s1, tr) \<and> [] \<noteq> fallback_suggestions"
  using assms
  by (simp add: analyzeContent_resolved split_char_only_separators fallback_suggestions_def)

theorem analyzeContent_empty_on_success_witness:
  "retryWithBackoff (textGeneration (online ''\<newline>\<newline>'') (analysis_request ''any'')) 3 1000 0
     = (Inr \<lparr>generated_text = ''\<newline>\<newline>''\<rparr>, 1, [Invoked]) \<and>
   list_all (\<lambda>c. c = CHR 0x0A) ''\<newline>\<newline>'' \<and>
   analyzeContent (online ''\<newline>\<newline>'') ''any'' 0 = (Inr [], 1, [Invoked])"
proof -
  have a: "retryWithBackoff (textGeneration (online ''\<newline>\<newline>'') (analysis_request ''any'')) 3 1000 0
     = (Inr \<lparr>generated_text = ''\<newline>\<newline>''\<rparr>, 1, [Invoked])"
    by (rule online_first_attempt)
  have b: "list_all (\<lambda>c. c = CHR 0x0A) (generated_text \<lparr>generated_text = ''\<newline>\<newline>''\<rparr>)"
    by simp
  from analyzeContent_empty_on_success [OF a b] a show ?thesis by simp
qed

section \<open>The metadata generator: which path returns what\<close>

lemma split_char_head: "\<exists>rest. split_char d s = takeWhile (\<lambda>c. c \<noteq> d) s # rest"
  by (induction s) auto

lemma inner_catch_eq:
  "inner_catch env url' content s =
     Inr \<lparr>ident = Date_now env s, url = url',
          title = trim (takeWhile (\<lambda>c. c \<noteq> CHR ''.'') content),
          description = formatDescription
            (''Discover comprehensive insights about ''
             @ toLowerCase (takeWhile (\<lambda>c. c \<noteq> CHR ''.'') content)
             @ ''. Get expert guidance and practical strategies for better results.''),
          keywords = extractKeywords content\<rparr>"
proof -
  obtain rest where "split_char CHR ''.'' content = takeWhile (\<lambda>c. c \<noteq> CHR ''.'') content # rest"
    using split_char_head by blast
  then show ?thesis by (simp add: inner_catch_def)
qed

lemma outer_catch_eq:
  "outer_catch env url' content s =
     Inr \<lparr>ident = Date_now env s, url = url',
          title = trim (takeWhile (\<lambda>c. c \<noteq> CHR ''.'') content),
          description = formatDescription
            (''Explore essential information about ''
             @ toLowerCase (takeWhile (\<lambda>c. c \<noteq> CHR ''.'') content)
             @ ''. Find practical tips and expert recommendations for optimal outcomes.''),
          keywords = extractKeywords content\<rparr>"
proof -
  obtain rest where "split_char CHR ''.'' content = takeWhile (\<lambda>c. c \<noteq> CHR ''.'') content # rest"
    using split_char_head by blast
  then show ?thesis by (simp add: outer_catch_def)
qed

lemma generate_rejected:
  assumes "retryWithBackoff (textGeneration env (metadata_request url' content)) 3 1000 s
             = (Inl e, s1, tr)"
  shows "generateLLMMetadata env url' content s =
           (outer_catch env url' content s1, s1,
            tr @ [Logged ''Error generating metadata with LLM:'' e])"
  using assms by (simp add: generateLLMMetadata_def)

lemma generate_valid:
  assumes "retryWithBackoff (textGeneration env (metadata_request url' content)) 3 1000 s
             = (Inr response, s1, tr)"
    and "parse_and_validate env url' response s1 = Inr page"
  shows "generateLLMMetadata env url' content s = (Inr page, s1, tr)"
  using assms by (simp add: generateLLMMetadata_def)

lemma generate_invalid:
  assumes "retryWithBackoff (textGeneration env (metadata_request url' content)) 3 1000 s
             = (Inr response, s1, tr)"
    and "parse_and_validate env url' response s1 = Inl e"
  shows "generateLLMMetadata env url' content s =
           (inner_catch env url' content s1, s1,
            tr @ [Logged ''Failed to parse or validate LLM response:'' e])"
  using assms by (simp add: generateLLMMetadata_def inner_catch_eq)

lemma parse_and_validate_url:
  "parse_and_validate env url' response s = Inr page \<Longrightarrow> url page = url'"
  by (auto simp: parse_and_validate_def and_then_def split: sum.splits if_splits)

lemma generate_returns_url:
  "\<exists>page. fst (generateLLMMetadata env url' content s) = Inr page \<and> url page = url'"
proof -
  obtain r s1 tr where
    r: "retryWithBackoff (textGeneration env (metadata_request url' content)) 3 1000 s = (r, s1, tr)"
    by (rule prod_cases3)
  show ?thesis
  proof (cases r)
    case (Inl e)
    with r show ?thesis by (simp add: generate_rejected outer_catch_eq)
  next
    case (Inr response)
    note resolved = r [unfolded Inr]
    show ?thesis
    proof (cases "parse_and_validate env url' response s1")
      case (Inl e)
      from generate_invalid [OF resolved Inl] show ?thesis by (simp add: inner_catch_eq)
    next
      case (Inr page)
      from generate_valid [OF resolved Inr] parse_and_validate_url [OF Inr]
      show ?thesis by simp
    qed
  qed
qed

text \<open>
  C2: whatever the url, the content, the remote client and the parser do,
  \<^verbatim>\<open>generateLLMMetadata\<close> resolves to a \<^verbatim>\<open>PageMetadata\<close>; it never rejects. When the
  retried remote call rejects, the result is the one built by the outer \<^verbatim>\<open>catch\<close>; when
  it resolves and parsing or validation throws, the one built by the inner \<^verbatim>\<open>catch\<close>.
\<close>

theorem generateLLMMetadata_never_fails:
  "(\<exists>page. fst (generateLLMMetadata env url' content s) = Inr page) \<and>
   (\<forall>e s1 tr.
      retryWithBackoff (textGeneration env (metadata_request url' content)) 3 1000 s
        = (Inl e, s1, tr) \<longrightarrow>
      (\<exists>page. outer_catch env url' content s1 = Inr page \<and>
         fst (generateLLMMetadata env url' content s) = Inr page)) \<and>
   (\<forall>response s1 tr e.
      retryWithBackoff (textGeneration env (metadata_request url' content)) 3 1000 s
        = (Inr response, s1, tr) \<and>
      parse_and_validate env url' response s1 = Inl e \<longrightarrow>
      (\<exists>page. inner_catch env url' content s1 = Inr page \<and>
         fst (generateLLMMetadata env url' content s) = Inr page))"
proof (intro conjI allI impI)
  show "\<exists>page. fst (generateLLMMetadata env url' content s) = Inr page"
    using generate_returns_url [of env url' content s] by blast
next
  fix e s1 tr
  assume "retryWithBackoff (textGeneration env (metadata_request url' content)) 3 1000 s
            = (Inl e, s1, tr)"
  then show "\<exists>page. outer_catch env url' content s1 = Inr page \<and>
               fst (generateLLMMetadata env url' content s) = Inr page"
    by (simp add: generate_rejected outer_catch_eq)
next
  fix response s1 tr e
  assume "retryWithBackoff (textGeneration env (metadata_request url' content)) 3 1000 s
            = (Inr response, s1, tr) \<and>
          parse_and_validate env url' response s1 = Inl e"
  then show "\<exists>page. inner_catch env url' content s1 = Inr page \<and>
               fst (generateLLMMetadata env url' content s) = Inr page"
    by (simp add: generate_invalid inner_catch_eq)
qed

lemma offline_three_attempts:
  "retryWithBackoff (textGeneration offline a) 3 1000 0 =
     (Inl (Thrown ''attempt III''), 3, [Invoked, Slept 1000, Invoked, Slept 2000, Invoked])"
  by (rule three_rejections [where ?s1.0 = 1 and ?s2.0 = 2])
     (simp_all add: offline_def rejecting_def numeral_2_eq_2 numeral_3_eq_3)

lemma online_parse_fails:
  "text \<noteq> sample_json_text \<Longrightarrow>
   parse_and_validate (online text) url' \<lparr>generated_text = text\<rparr> s = Inl SyntaxError"
  by (simp add: parse_and_validate_def and_then_def online_def sample_parse_def)

lemma not_json_is_not_sample: "''not json'' \<noteq> sample_json_text"
  by (simp add: sample_json_text_def)

theorem generateLLMMetadata_never_fails_witness:
  "(\<exists>page. outer_catch offline ''http://x'' ''Healthy eating matters. It helps you.'' 3 = Inr page \<and>
      fst (generateLLMMetadata offline ''http://x'' ''Healthy eating matters. It helps you.'' 0)
        = Inr page) \<and>
   (\<exists>page. inner_catch (online ''not json'') ''http://x'' ''Healthy eating matters. It helps you.'' 1
        = Inr page \<and>
      fst (generateLLMMetadata (online ''not json'') ''http://x''
             ''Healthy eating matters. It helps you.'' 0) = Inr page)"
proof -
  let ?u = "''http://x''" and ?c = "''Healthy eating matters. It helps you.''"
  from generateLLMMetadata_never_fails [of offline ?u ?c 0]
    offline_three_attempts [of "metadata_request ?u ?c"]
  have "\<exists>page. outer_catch offline ?u ?c 3 = Inr page \<and>
          fst (generateLLMMetadata offline ?u ?c 0) = Inr page"
    by blast
  moreover
  from generateLLMMetadata_never_fails [of "online ''not json''" ?u ?c 0]
    online_first_attempt [of "''not json''" "metadata_request ?u ?c"]
    online_parse_fails [OF not_json_is_not_sample, of ?u 1]
  have "\<exists>page. inner_catch (online ''not json'') ?u ?c 1 = Inr page \<and>
          fst (generateLLMMetadata (online ''not json'') ?u ?c 0) = Inr page"
    by blast
  ultimately show ?thesis by blast
qed

text \<open>
  C8: on every path the \<^verbatim>\<open>url\<close> field of the result is the \<^verbatim>\<open>url\<close> argument.
\<close>

theorem generateLLMMetadata_copies_url:
  "\<exists>page. fst (generateLLMMetadata env url' content s) = Inr page \<and> url page = url'"
  by (rule generate_returns_url)

section \<open>The fallback on a malformed response\<close>

lemma parse_and_validate_unparsed:
  "JSON_parse env (generated_text response) = Inl e \<Longrightarrow>
   parse_and_validate env url' response s = Inl e"
  by (simp add: parse_and_validate_def and_then_def)

lemma parse_and_validate_lacking:
  assumes "JSON_parse env (generated_text response) = Inr metadata"
    and "lacks_truthy metadata ''title'' \<or> lacks_truthy metadata ''description''
           \<or> lacks_truthy metadata ''keywords''"
  shows "\<exists>e. parse_and_validate env url' response s = Inl e"
  using assms
  by (auto simp: parse_and_validate_def and_then_def lacks_truthy_def split: sum.splits)

lemma healthy_mainTopic:
  "takeWhile (\<lambda>c. c \<noteq> CHR ''.'') ''Healthy eating matters. It helps you.''
     = ''Healthy eating matters''"
  by simp

lemma healthy_title: "trim ''Healthy eating matters'' = ''Healthy eating matters''"
  by code_simp

lemma healthy_keywords:
  "extractKeywords ''Healthy eating matters. It helps you.'' = ''healthy, eating, matters, helps''"
  by code_simp

lemma healthy_description:
  "formatDescription
     (''Discover comprehensive insights about '' @ toLowerCase ''Healthy eating matters''
      @ ''. Get expert guidance and practical strategies for better results.'')
   = ''Discover comprehensive insights about healthy eating matters.''
     @ '' Get expert guidance and practical strategies for better results..''"
  by code_simp

text \<open>
  C5: for the url \<^verbatim>\<open>http://x\<close> and the content \<^verbatim>\<open>Healthy eating matters. It helps you.\<close>,
  when the retried call resolves and the generated text does not parse, or the parsed
  value lacks a truthy title, description or keywords, the result has the title
  \<^verbatim>\<open>Healthy eating matters\<close>, the keywords of \<^verbatim>\<open>extractKeywords\<close> on the content, and a
  description that begins \<^verbatim>\<open>Discover comprehensive insights about healthy eating matters.\<close>
\<close>

theorem generateLLMMetadata_malformed_response:
  assumes "retryWithBackoff
             (textGeneration env
               (metadata_request ''http://x'' ''Healthy eating matters. It helps you.'')) 3 1000 s
             = (Inr response, s1, tr)"
    and "isl (JSON_parse env (generated_text response)) \<or>
         (\<exists>metadata. JSON_parse env (generated_text response) = Inr metadata \<and>
            (lacks_truthy metadata ''title'' \<or> lacks_truthy metadata ''description''
               \<or> lacks_truthy metadata ''keywords''))"
  shows "\<exists>page rest.
           fst (generateLLMMetadata env ''http://x'' ''Healthy eating matters. It helps you.'' s)
             = Inr page \<and>
           title page = ''Healthy eating matters'' \<and>
           keywords page = extractKeywords ''Healthy eating matters. It helps you.'' \<and>
           description page
             = ''Discover comprehensive insights about healthy eating matters.'' @ rest"
proof -
  let ?c = "''Healthy eating matters. It helps you.''"
  from assms(2) obtain e where "parse_and_validate env ''http://x'' response s1 = Inl e"
    using parse_and_validate_unparsed [of env response _ "''http://x''" s1]
      parse_and_validate_lacking [of env response _ "''http://x''" s1]
    by (cases "JSON_parse env (generated_text response)") auto
  from generate_invalid [OF assms(1) this]
  have "fst (generateLLMMetadata env ''http://x'' ?c s) = inner_catch env ''http://x'' ?c s1"
    by simp
  then show ?thesis
    unfolding inner_catch_eq healthy_mainTopic healthy_title healthy_description
    by simp
qed

theorem generateLLMMetadata_malformed_response_witness:
  "isl (JSON_parse (online ''not json'') ''not json'') \<and>
   (\<exists>page rest.
      fst (generateLLMMetadata (online ''not json'') ''http://x''
             ''Healthy eating matters. It helps you.'' 0) = Inr page \<and>
      title page = ''Healthy eating matters'' \<and>
      keywords page = ''healthy, eating, matters, helps'' \<and>
      description page
        = ''Discover comprehensive insights about healthy eating matters.'' @ rest)"
proof -
  have p: "isl (JSON_parse (online ''not json'') (generated_text \<lparr>generated_text = ''not json''\<rparr>))"
    using not_json_is_not_sample by (simp add: online_def sample_parse_def)
  from generateLLMMetadata_malformed_response [OF online_first_attempt disjI1, OF p] p
  show ?thesis
    unfolding healthy_keywords by simp
qed

section \<open>Keyword extraction\<close>

lemma replace_all_One_empty: "replace_all [One p] [] s = filter (\<lambda>c. \<not> p c) s"
  by (induction s) auto

lemma rmatch_Star: "rmatch [Star p] s = Some (length (takeWhile p s))"
  by (induction s) auto

lemma rmatch_Plus:
  "rmatch [Plus p] (c # cs) = (if p c then Some (Suc (length (takeWhile p cs))) else None)"
  by (simp add: rmatch_Star)

lemma drop_takeWhile: "drop (length (takeWhile p s)) s = dropWhile p s"
  by (induction s) auto

lemma split_loop_Plus:
  "split_loop [Plus p] piece (c # cs) =
     (if p c then piece # split_loop [Plus p] [] (dropWhile p cs)
      else split_loop [Plus p] (piece @ [c]) cs)"
  by (simp add: rmatch_Plus drop_takeWhile del: rmatch.simps)

lemma words_of_no_space:
  assumes "list_all (\<lambda>c. \<not> is_space c) w"
  shows "words_of w = (if w = [] then [] else [w])"
proof (cases w)
  case Nil
  then show ?thesis by simp
next
  case (Cons a as)
  with assms have "takeWhile (\<lambda>x. \<not> is_space x) as = as"
    and "dropWhile (\<lambda>x. \<not> is_space x) as = []" and "\<not> is_space a"
    by (simp_all add: list_all_iff)
  with Cons show ?thesis by (simp del: dropWhile_eq_Nil_conv)
qed

lemma words_of_dropWhile: "words_of (dropWhile is_space s) = words_of s"
  by (induction s) auto

lemma words_of_append:
  "list_all (\<lambda>c. \<not> is_space c) w \<Longrightarrow> is_space c \<Longrightarrow>
   words_of (w @ c # cs) = (if w = [] then [] else [w]) @ words_of cs"
proof (cases w)
  case Nil
  assume "is_space c"
  with Nil show ?thesis by simp
next
  case (Cons a as)
  assume "list_all (\<lambda>c. \<not> is_space c) w" and "is_space c"
  with Cons have "takeWhile (\<lambda>x. \<not> is_space x) (as @ c # cs) = as"
    and "dropWhile (\<lambda>x. \<not> is_space x) (as @ c # cs) = c # cs" and "\<not> is_space a"
    by (simp_all add: list_all_iff takeWhile_append2 dropWhile_append2 takeWhile_tail)
  with Cons \<open>is_space c\<close> show ?thesis by simp
qed

lemma split_loop_spaces:
  "list_all (\<lambda>c. \<not> is_space c) piece \<Longrightarrow>
   filter (\<lambda>w. w \<noteq> []) (split_loop [Plus is_space] piece s) = words_of (piece @ s)"
proof (induction s arbitrary: piece rule: length_induct)
  case (1 s)
  show ?case
  proof (cases s)
    case Nil
    with 1 show ?thesis by (simp add: words_of_no_space)
  next
    case (Cons c cs)
    show ?thesis
    proof (cases "is_space c")
      case True
      have "length (dropWhile is_space cs) < length s"
        using Cons length_dropWhile_le [of is_space cs] by simp
      with 1 have "filter (\<lambda>w. w \<noteq> []) (split_loop [Plus is_space] [] (dropWhile is_space cs))
                     = words_of (dropWhile is_space cs)"
        by simp
      with True Cons 1(2) show ?thesis
        by (simp add: split_loop_Plus words_of_append words_of_dropWhile del: split_loop.simps)
    next
      case False
      with 1 Cons have "filter (\<lambda>w. w \<noteq> []) (split_loop [Plus is_space] (piece @ [c]) cs)
                          = words_of ((piece @ [c]) @ cs)"
        by simp
      with False Cons show ?thesis
        by (simp add: split_loop_Plus del: split_loop.simps)
    qed
  qed
qed

lemma split_regex_spaces: "filter (\<lambda>w. w \<noteq> []) (split_regex re_spaces s) = words_of s"
  using split_loop_spaces [of "[]" s]
  by (simp add: split_regex_def re_spaces_def)

lemma filter_long_words:
  "filter (\<lambda>word. length word > 3 \<and> word \<notin> set commonWords) ws =
   filter (\<lambda>word. \<not> length word \<le> 3)
     (filter (\<lambda>word. word \<notin> set commonWords) (filter (\<lambda>w. w \<noteq> []) ws))"
  by (induction ws) auto

lemma foldl_Set_add:
  "distinct seen \<Longrightarrow>
   foldl Set_add seen xs = seen @ first_seen (filter (\<lambda>x. x \<notin> set seen) xs)"
proof (induction xs arbitrary: seen)
  case Nil
  show ?case by simp
next
  case (Cons x xs)
  show ?case
  proof (cases "x \<in> set seen")
    case True
    with Cons show ?thesis by (simp add: Set_add_def)
  next
    case False
    have "removeAll x (filter (\<lambda>y. y \<notin> set seen) xs) = filter (\<lambda>y. y \<notin> set (seen @ [x])) xs"
      by (induction xs) auto
    with False Cons.IH [of "seen @ [x]"] Cons.prems show ?thesis
      by (simp add: Set_add_def)
  qed
qed

lemma Array_from_Set_first_seen: "Array_from_Set xs = first_seen xs"
  using foldl_Set_add [of "[]" xs] by (simp add: Array_from_Set_def)

lemma extractKeywords_refines: "extractKeywords content = extractKeywords_spec content"
  unfolding extractKeywords_def extractKeywords_spec_def Let_def
    Array_from_Set_first_seen filter_long_words split_regex_spaces
    re_not_word_space_def replace_all_One_empty
  by simp

lemma quick_brown_fox:
  "extractKeywords ''The quick brown fox jumps over the lazy dog''
     = ''quick, brown, jumps, over, lazy''"
  by code_simp

text \<open>
  C4, as the code has it: \<^verbatim>\<open>extractKeywords\<close> is the function the specification
  describes, and on \<^verbatim>\<open>The quick brown fox jumps over the lazy dog\<close> it returns
  \<^verbatim>\<open>quick, brown, jumps, over, lazy\<close>: \<^verbatim>\<open>fox\<close> has length 3 and is discarded.
\<close>

theorem extractKeywords_as_specified:
  "extractKeywords content = extractKeywords_spec content \<and>
   extractKeywords ''The quick brown fox jumps over the lazy dog''
     = ''quick, brown, jumps, over, lazy''"
  using extractKeywords_refines quick_brown_fox by blast

text \<open>
  C4 as stated names the result \<^verbatim>\<open>quick, brown, fox, jumps, over\<close>, which the code does
  not return.
\<close>

theorem extractKeywords_fox_counterexample:
  "extractKeywords ''The quick brown fox jumps over the lazy dog''
     \<noteq> ''quick, brown, fox, jumps, over''"
  unfolding quick_brown_fox by simp

section \<open>The fields of a fallback result\<close>

lemma dropWhile_snoc_kept: "\<not> P c \<Longrightarrow> \<exists>zs. dropWhile P (xs @ [c]) = zs @ [c]"
  by (induction xs) auto

lemma trim_keeps_head:
  assumes "\<not> is_space c"
  shows "\<exists>ys. trim (c # cs) = c # ys"
proof -
  obtain zs where "dropWhile is_space (rev cs @ [c]) = zs @ [c]"
    using dropWhile_snoc_kept [of is_space c "rev cs"] assms by blast
  with assms show ?thesis by (simp add: trim_def)
qed

lemma trim_empty_iff: "trim s = [] \<longleftrightarrow> list_all is_space s"
proof
  assume "list_all is_space s"
  then have "dropWhile is_space (rev s) = []" by (simp add: list_all_iff)
  then show "trim s = []" unfolding trim_def by (simp del: dropWhile_eq_Nil_conv)
next
  assume t: "trim s = []"
  show "list_all is_space s"
  proof (rule ccontr)
    assume "\<not> list_all is_space s"
    then have n: "dropWhile is_space (rev s) \<noteq> []" by (auto simp: list_all_iff)
    then have "\<not> is_space (hd (dropWhile is_space (rev s)))" by (rule hd_dropWhile)
    moreover from t have "\<forall>x\<in>set (dropWhile is_space (rev s)). is_space x"
      by (simp add: trim_def)
    ultimately show False using n hd_in_set by blast
  qed
qed

lemma replace_all_keeps_head:
  "rmatch r (c # cs) = None \<Longrightarrow> replace_all r rep (c # cs) = c # replace_all r rep cs"
  by simp

lemma capital_unmatched:
  assumes "c = CHR ''D'' \<or> c = CHR ''E''"
  shows "rmatch re_numbered (c # cs) = None"
    and "rmatch re_here_are (c # cs) = None"
    and "rmatch re_spaces (c # cs) = None"
    and "rmatch (re_around CHR 0x0A) (c # cs) = None"
    and "rmatch (re_around CHR ''.'') (c # cs) = None"
    and "rmatch (re_around CHR '','') (c # cs) = None"
  using assms
  by (auto simp: re_numbered_def re_here_are_def re_spaces_def re_around_def
      is_digit_def is_space_def icase_def code_def)

lemma cleanDescription_keeps_head:
  assumes "c = CHR ''D'' \<or> c = CHR ''E''"
  shows "\<exists>ys. cleanDescription (c # cs) = c # ys"
proof -
  note keep = capital_unmatched [OF assms, THEN replace_all_keeps_head]
  from assms have "\<not> is_space c" by (auto simp: is_space_def code_def)
  from trim_keeps_head [OF this] show ?thesis
    unfolding cleanDescription_def keep by blast
qed

lemma formatDescription_not_empty:
  assumes "cleanDescription d \<noteq> []"
  shows "formatDescription d \<noteq> []"
proof -
  have "cleanDescription [] = []"
    by (simp add: cleanDescription_def re_numbered_def re_here_are_def re_spaces_def
        re_around_def trim_def)
  with assms have "d \<noteq> []" by auto
  with assms show ?thesis
    by (auto simp: formatDescription_def Let_def)
qed

lemma discover_description_not_empty:
  "formatDescription (''Discover comprehensive insights about '' @ topic @ rest) \<noteq> []"
proof -
  obtain ys where
    "cleanDescription (CHR ''D'' # (''iscover comprehensive insights about '' @ topic @ rest))
       = CHR ''D'' # ys"
    using cleanDescription_keeps_head [of "CHR ''D''"] by blast
  then show ?thesis
    using formatDescription_not_empty
      [of "''Discover comprehensive insights about '' @ topic @ rest"] by simp
qed

lemma explore_description_not_empty:
  "formatDescription (''Explore essential information about '' @ topic @ rest) \<noteq> []"
proof -
  obtain ys where
    "cleanDescription (CHR ''E'' # (''xplore essential information about '' @ topic @ rest))
       = CHR ''E'' # ys"
    using cleanDescription_keeps_head [of "CHR ''E''"] by blast
  then show ?thesis
    using formatDescription_not_empty
      [of "''Explore essential information about '' @ topic @ rest"] by simp
qed

lemma join_not_empty: "x \<noteq> [] \<Longrightarrow> join sep (x # xs) \<noteq> []"
  by (cases xs) auto

lemma first_seen_empty_iff: "first_seen xs = [] \<longleftrightarrow> xs = []"
  by (cases xs) auto

lemma extractKeywords_empty_iff:
  "extractKeywords content = [] \<longleftrightarrow>
   \<not> (\<exists>word \<in> set (words_of (filter (\<lambda>c. is_word c \<or> is_space c) (toLowerCase content))).
        3 < length word \<and> word \<notin> set commonWords)"
proof -
  let ?ws = "filter (\<lambda>word. \<not> length word \<le> 3)
               (filter (\<lambda>word. word \<notin> set commonWords)
                 (words_of (filter (\<lambda>c. is_word c \<or> is_space c) (toLowerCase content))))"
  have e: "extractKeywords content = join '', '' (take 5 (first_seen ?ws))"
    by (simp add: extractKeywords_refines extractKeywords_spec_def)
  show ?thesis
  proof (cases ?ws)
    case Nil
    then have "\<not> (\<exists>word \<in> set (words_of (filter (\<lambda>c. is_word c \<or> is_space c) (toLowerCase content))).
        3 < length word \<and> word \<notin> set commonWords)"
      by (auto simp: filter_empty_conv)
    with Nil e show ?thesis by simp
  next
    case (Cons w ws)
    then have "w \<in> set ?ws" by simp
    then have w: "3 < length w" "w \<notin> set commonWords"
      "w \<in> set (words_of (filter (\<lambda>c. is_word c \<or> is_space c) (toLowerCase content)))"
      by auto
    then have "w \<noteq> []" by auto
    with e Cons have "extractKeywords content \<noteq> []"
      by (simp add: join_not_empty)
    with w show ?thesis by blast
  qed
qed

lemma fallback_page_fields:
  assumes "page = \<lparr>ident = i, url = url', title = trim (takeWhile (\<lambda>c. c \<noteq> CHR ''.'') content),
             description = d, keywords = extractKeywords content\<rparr>"
    and "d \<noteq> []"
  shows "description page \<noteq> [] \<and> url page = url' \<and>
         (title page \<noteq> [] \<longleftrightarrow> \<not> list_all is_space (takeWhile (\<lambda>c. c \<noteq> CHR ''.'') content)) \<and>
         (keywords page \<noteq> [] \<longleftrightarrow>
            (\<exists>word \<in> set (words_of (filter (\<lambda>c. is_word c \<or> is_space c) (toLowerCase content))).
               3 < length word \<and> word \<notin> set commonWords))"
  using assms extractKeywords_empty_iff [of content]
  by (simp add: trim_empty_iff)

text \<open>
  C1, as the code has it: on both fallback paths (the retried call rejects, or it resolves
  and parsing or validation throws) the result has a non-empty description and the url of
  the call; its title is non-empty exactly when the text before the first period of the
  content has a character that is not white space, and its keywords are non-empty exactly
  when the lower-cased, stripped content has a word longer than 3 characters that is not a
  stop word.
\<close>

theorem generateLLMMetadata_fallback_fields:
  assumes "retryWithBackoff (textGeneration env (metadata_request url' content)) 3 1000 s
             = (r, s1, tr)"
    and "case r of Inl e \<Rightarrow> True | Inr response \<Rightarrow> isl (parse_and_validate env url' response s1)"
  shows "\<exists>page. fst (generateLLMMetadata env url' content s) = Inr page \<and>
           description page \<noteq> [] \<and> url page = url' \<and>
           (title page \<noteq> [] \<longleftrightarrow>
              \<not> list_all is_space (takeWhile (\<lambda>c. c \<noteq> CHR ''.'') content)) \<and>
           (keywords page \<noteq> [] \<longleftrightarrow>
              (\<exists>word \<in> set (words_of (filter (\<lambda>c. is_word c \<or> is_space c)
                                         (toLowerCase content))).
                 3 < length word \<and> word \<notin> set commonWords))"
proof (cases r)
  case (Inl e)
  with assms(1) have "fst (generateLLMMetadata env url' content s) = outer_catch env url' content s1"
    by (simp add: generate_rejected)
  then show ?thesis
    unfolding outer_catch_eq
    using fallback_page_fields [OF refl explore_description_not_empty] by simp
next
  case (Inr response)
  with assms(2) obtain e where "parse_and_validate env url' response s1 = Inl e"
    by (auto simp: isl_def)
  with assms(1) Inr
  have "fst (generateLLMMetadata env url' content s) = inner_catch env url' content s1"
    by (simp add: generate_invalid)
  then show ?thesis
    unfolding inner_catch_eq
    using fallback_page_fields [OF refl discover_description_not_empty] by simp
qed

lemma healthy_words:
  "words_of (filter (\<lambda>c. is_word c \<or> is_space c)
     (toLowerCase ''Healthy eating matters. It helps you.''))
   = [''healthy'', ''eating'', ''matters'', ''it'', ''helps'', ''you'']"
  by code_simp

lemma healthy_has_keyword:
  "\<exists>word \<in> set (words_of (filter (\<lambda>c. is_word c \<or> is_space c)
                    (toLowerCase ''Healthy eating matters. It helps you.''))).
     3 < length word \<and> word \<notin> set commonWords"
  unfolding healthy_words by (simp add: commonWords_def)

lemma healthy_has_topic:
  "\<not> list_all is_space (takeWhile (\<lambda>c. c \<noteq> CHR ''.'') ''Healthy eating matters. It helps you.'')"
  by (simp add: is_space_def code_def)

theorem generateLLMMetadata_fallback_fields_witness:
  "(\<exists>page. fst (generateLLMMetadata offline ''http://x''
                ''Healthy eating matters. It helps you.'' 0) = Inr page \<and>
      description page \<noteq> [] \<and> url page = ''http://x'' \<and> title page \<noteq> [] \<and>
      keywords page \<noteq> []) \<and>
   (\<exists>page. fst (generateLLMMetadata (online ''not json'') ''http://x''
                ''Healthy eating matters. It helps you.'' 0) = Inr page \<and>
      description page \<noteq> [] \<and> url page = ''http://x'' \<and> title page \<noteq> [] \<and>
      keywords page \<noteq> [])"
proof -
  let ?u = "''http://x''" and ?c = "''Healthy eating matters. It helps you.''"
  have "case Inl (Thrown ''attempt III'') :: js_error + response of
          Inl e \<Rightarrow> True
        | Inr response \<Rightarrow> isl (parse_and_validate offline ?u response 3)"
    by simp
  from generateLLMMetadata_fallback_fields [OF offline_three_attempts this]
    healthy_has_keyword healthy_has_topic
  have "\<exists>page. fst (generateLLMMetadata offline ?u ?c 0) = Inr page \<and>
      description page \<noteq> [] \<and> url page = ?u \<and> title page \<noteq> [] \<and> keywords page \<noteq> []"
    by blast
  moreover
  have "case Inr \<lparr>generated_text = ''not json''\<rparr> :: js_error + response of
          Inl e \<Rightarrow> True
        | Inr response \<Rightarrow> isl (parse_and_validate (online ''not json'') ?u response 1)"
    using online_parse_fails [OF not_json_is_not_sample, of ?u 1] by simp
  from generateLLMMetadata_fallback_fields [OF online_first_attempt this]
    healthy_has_keyword healthy_has_topic
  have "\<exists>page. fst (generateLLMMetadata (online ''not json'') ?u ?c 0) = Inr page \<and>
      description page \<noteq> [] \<and> url page = ?u \<and> title page \<noteq> [] \<and> keywords page \<noteq> []"
    by blast
  ultimately show ?thesis by blast
qed

lemma to_be_keywords: "extractKeywords ''To be or not to be.'' = []"
  by code_simp

text \<open>
  C1 as stated fails: the content \<^verbatim>\<open>To be or not to be.\<close> is not empty, every word of it
  has at most 3 characters, and with a client that rejects every call the result has empty
  keywords.
\<close>

theorem generateLLMMetadata_empty_keywords_counterexample:
  "''To be or not to be.'' \<noteq> [] \<and>
   map_sum id keywords (fst (generateLLMMetadata offline ''http://x'' ''To be or not to be.'' 0))
     = Inr []"
proof -
  have "fst (generateLLMMetadata offline ''http://x'' ''To be or not to be.'' 0)
          = outer_catch offline ''http://x'' ''To be or not to be.'' 3"
    by (simp add: generate_rejected [OF offline_three_attempts])
  then show ?thesis
    unfolding outer_catch_eq to_be_keywords by simp
qed

section \<open>Formatting twice\<close>


























































end
